theory Spec2Isabelle
  imports Main "HOL-Library.Sublist" "HOL-Library.Word"
begin

unbundle bit_operations_syntax

section \<open>Python values, exceptions and the built-ins the program uses\<close>

text \<open>
  The values that \<^verbatim>\<open>response.json()\<close> produces and that travel through the program
  unchanged: \<^verbatim>\<open>None\<close>, booleans, unbounded integers, floats (an IEEE double, kept
  as its 64 bits), strings, lists and dicts. A dict is an association list in insertion
  order; a Python dict has each key once, so the first binding of a key is its only one.
\<close>

datatype pyval =
    PNone
  | PBool bool
  | PInt int
  | PFloat "64 word"
  | PStr string
  | PList "pyval list"
  | PDict "(string \<times> pyval) list"

text \<open>
  The exceptions that occur. All of them are subclasses of Python's \<^verbatim>\<open>Exception\<close>,
  so an \<^verbatim>\<open>except Exception\<close> clause catches each of them. \<open>RequestException\<close> is
  what the HTTP library raises when the call itself fails (no connection, TLS, ...);
  \<open>JSONDecodeError\<close> is raised by \<^verbatim>\<open>response.json()\<close> on a body that is not JSON;
  \<open>EnvironmentError\<close> is Python's alias of \<^verbatim>\<open>OSError\<close>; \<open>RuntimeError\<close> stands for
  whatever else a foreign object raises.
\<close>

datatype py_exn =
    ValueError string
  | KeyError string
  | TypeError
  | AttributeError
  | IndexError
  | JSONDecodeError
  | RequestException string
  | EnvironmentError string
  | RuntimeError string

text \<open>\<^verbatim>\<open>needle in haystack\<close> on two strings.\<close>

fun str_contains :: "string \<Rightarrow> string \<Rightarrow> bool" where
  "str_contains p [] = (p = [])"
| "str_contains p (c # cs) = (prefix p (c # cs) \<or> str_contains p cs)"

text \<open>Truth value of an object, as \<^verbatim>\<open>if x:\<close> and \<^verbatim>\<open>not x\<close> test it.\<close>

fun truthy :: "pyval \<Rightarrow> bool" where
  "truthy PNone = False"
| "truthy (PBool b) = b"
| "truthy (PInt i) = (i \<noteq> 0)"
| "truthy (PFloat w) = (w AND 0x7FFFFFFFFFFFFFFF \<noteq> 0)"
| "truthy (PStr s) = (s \<noteq> [])"
| "truthy (PList xs) = (xs \<noteq> [])"
| "truthy (PDict kv) = (kv \<noteq> [])"

text \<open>\<^verbatim>\<open>obj[key]\<close> with a string key: only a dict can be indexed so.\<close>

fun py_getitem :: "pyval \<Rightarrow> string \<Rightarrow> py_exn + pyval" where
  "py_getitem (PDict kv) k = (case map_of kv k of None \<Rightarrow> Inl (KeyError k) | Some v \<Rightarrow> Inr v)"
| "py_getitem _ k = Inl TypeError"

text \<open>\<^verbatim>\<open>obj.get(key)\<close>: a method of dicts only; a missing key gives \<^verbatim>\<open>None\<close>.\<close>

fun py_get :: "pyval \<Rightarrow> string \<Rightarrow> py_exn + pyval" where
  "py_get (PDict kv) k = (case map_of kv k of None \<Rightarrow> Inr PNone | Some v \<Rightarrow> Inr v)"
| "py_get _ k = Inl AttributeError"

text \<open>
  The items that \<^verbatim>\<open>list.extend(obj)\<close> iterates over: the elements of a list, the
  characters of a string, the keys of a dict; anything else is not iterable.
\<close>

fun py_iter :: "pyval \<Rightarrow> py_exn + pyval list" where
  "py_iter (PList xs) = Inr xs"
| "py_iter (PStr s) = Inr (map (\<lambda>c. PStr [c]) s)"
| "py_iter (PDict kv) = Inr (map (\<lambda>(k, v). PStr k) kv)"
| "py_iter _ = Inl TypeError"

text \<open>
  \<^verbatim>\<open>"{}".format(v)\<close> inserts \<^verbatim>\<open>str(v)\<close>: a string as it is, any other value
  through its \<^verbatim>\<open>repr\<close>, which is the interpreter's and is a parameter here.
\<close>

definition py_str :: "(pyval \<Rightarrow> string) \<Rightarrow> pyval \<Rightarrow> string" where
  "py_str repr v = (case v of PStr s \<Rightarrow> s | _ \<Rightarrow> repr v)"

text \<open>An optional string inside a format string: \<^verbatim>\<open>None\<close> prints as \<open>None\<close>.\<close>

definition fmt_opt :: "string option \<Rightarrow> string" where
  "fmt_opt s = (case s of None \<Rightarrow> ''None'' | Some t \<Rightarrow> t)"

text \<open>Decimal digits of an integer, as an f-string prints it.\<close>

function str_nat :: "nat \<Rightarrow> string" where
  "str_nat n = (if n < 10 then [char_of (48 + n)] else str_nat (n div 10) @ [char_of (48 + n mod 10)])"
  by pat_completeness auto
termination
  by (relation "measure id") auto

definition str_int :: "int \<Rightarrow> string" where
  "str_int i = (if i < 0 then CHR ''-'' # str_nat (nat (- i)) else str_nat (nat i))"

section \<open>The HTTP boundary\<close>

datatype http_method = GET | POST

record http_request =
  rq_method :: http_method
  rq_url :: string
  rq_headers :: "(string \<times> string) list"
  rq_auth :: "(string option \<times> string option) option"
  rq_verify :: bool

text \<open>
  A response object, as far as the program looks at it: its body text and what
  \<^verbatim>\<open>response.json()\<close> gives for it (a value, or an exception).
\<close>

record http_response =
  text_body :: string
  json :: "py_exn + pyval"

datatype http_outcome = Failed py_exn | Replied http_response

text \<open>
  The remote system is any state machine answering one request at a time. The process
  state holds that machine's state, the requests sent so far (in order), the exceptions
  that \<^verbatim>\<open>print(e)\<close> wrote to standard output, and the module global
  \<^verbatim>\<open>_TOKEN\<close>.
\<close>

type_synonym 'w server = "'w \<Rightarrow> http_request \<Rightarrow> http_outcome \<times> 'w"

record 'w proc =
  world :: 'w
  sent :: "http_request list"
  printed :: "py_exn list"
  TOKEN :: pyval

definition requests_call :: "'w server \<Rightarrow> http_request \<Rightarrow> 'w proc \<Rightarrow> http_outcome \<times> 'w proc" where
  "requests_call srv rq st =
     (case srv (world st) rq of
        (out, w') \<Rightarrow> (out, st\<lparr>world := w', sent := sent st @ [rq]\<rparr>))"

section \<open>ai\_tools: the device API client\<close>

record config =
  BASE_URL :: "string option"
  USERNAME :: "string option"
  PASSWORD :: "string option"

definition auth_request :: "config \<Rightarrow> http_request" where
  "auth_request cfg =
     \<lparr>rq_method = POST,
      rq_url = fmt_opt (BASE_URL cfg) @ ''/dna/system/api/v1/auth/token'',
      rq_headers = [],
      rq_auth = Some (USERNAME cfg, PASSWORD cfg),
      rq_verify = False\<rparr>"

text \<open>
  \<^verbatim>\<open>get_auth_token\<close>. The source calls \<^verbatim>\<open>response.json()\<close> once more for the
  returned value; it parses the same body, so the model uses the value it stored.
\<close>

definition get_auth_token ::
  "config \<Rightarrow> (pyval \<Rightarrow> string) \<Rightarrow> 'w server \<Rightarrow> 'w proc \<Rightarrow> (py_exn + pyval) \<times> 'w proc" where
  "get_auth_token cfg repr srv st =
     (case requests_call srv (auth_request cfg) st of
        (Failed e, st1) \<Rightarrow> (Inl e, st1)
      | (Replied response, st1) \<Rightarrow>
          if str_contains ''error'' (text_body response) then
            (case json response of
               Inl e \<Rightarrow> (Inl e, st1)
             | Inr j \<Rightarrow>
                 (case py_getitem j ''error'' of
                    Inl e \<Rightarrow> (Inl e, st1)
                  | Inr reason \<Rightarrow>
                      (Inl (ValueError (''ERROR: Failed to retrieve Access Token! REASON: ''
                                         @ py_str repr reason)), st1)))
          else
            (case json response of
               Inl e \<Rightarrow> (Inl e, st1)
             | Inr j \<Rightarrow>
                 (case py_getitem j ''Token'' of
                    Inl e \<Rightarrow> (Inl e, st1)
                  | Inr tok \<Rightarrow> (Inr tok, st1\<lparr>TOKEN := tok\<rparr>))))"

definition limit :: int where
  "limit = 500"

definition api_headers :: "string \<Rightarrow> (string \<times> string) list" where
  "api_headers token =
     [(''x-auth-token'', token), (''Content-Type'', ''application/json''),
      (''Accept'', ''application/json'')]"

definition inventory_request :: "config \<Rightarrow> string \<Rightarrow> int \<Rightarrow> http_request" where
  "inventory_request cfg token offset =
     \<lparr>rq_method = GET,
      rq_url = fmt_opt (BASE_URL cfg) @ ''/dna/intent/api/v1/network-device?&offset=''
               @ str_int offset @ ''&limit='' @ str_int limit,
      rq_headers = api_headers token,
      rq_auth = None,
      rq_verify = False\<rparr>"

text \<open>
  One pass through the body of the \<^verbatim>\<open>while True\<close> loop, after the request has
  been answered: what the body does with the outcome. The second
  \<^verbatim>\<open>response.json()["response"]\<close> of the body reads the value that
  \<^verbatim>\<open>.get("response")\<close> has just found truthy.
\<close>

datatype page_result = Raised py_exn | Items "pyval list" | No_more

definition read_page :: "http_outcome \<Rightarrow> page_result" where
  "read_page out =
     (case out of
        Failed e \<Rightarrow> Raised e
      | Replied response \<Rightarrow>
          (case json response of
             Inl e \<Rightarrow> Raised e
           | Inr j \<Rightarrow>
               (case py_get j ''response'' of
                  Inl e \<Rightarrow> Raised e
                | Inr page \<Rightarrow>
                    if truthy page then
                      (case py_iter page of Inl e \<Rightarrow> Raised e | Inr items \<Rightarrow> Items items)
                    else No_more)))"

text \<open>
  The loop ends by \<^verbatim>\<open>break\<close> (no exception) or by an exception raised in its
  body; it need not end at all, and then the value is \<open>None\<close>.
\<close>

partial_function (option) inventory_loop ::
  "config \<Rightarrow> 'w server \<Rightarrow> string \<Rightarrow> pyval list \<Rightarrow> int \<Rightarrow> 'w proc
     \<Rightarrow> (py_exn option \<times> pyval list \<times> 'w proc) option" where
  "inventory_loop cfg srv token device_list offset st =
     (case requests_call srv (inventory_request cfg token offset) st of
        (out, st1) \<Rightarrow>
          (case read_page out of
             Raised e \<Rightarrow> Some (Some e, device_list, st1)
           | Items items \<Rightarrow>
               inventory_loop cfg srv token (device_list @ items) (offset + limit) st1
           | No_more \<Rightarrow> Some (None, device_list, st1)))"

definition get_device_inventory ::
  "config \<Rightarrow> 'w server \<Rightarrow> string \<Rightarrow> 'w proc \<Rightarrow> (pyval list \<times> 'w proc) option" where
  "get_device_inventory cfg srv token st =
     (case inventory_loop cfg srv token [] 1 st of
        None \<Rightarrow> None
      | Some (None, device_list, st1) \<Rightarrow> Some (device_list, st1)
      | Some (Some e, device_list, st1) \<Rightarrow>
          Some (device_list, st1\<lparr>printed := printed st1 @ [e]\<rparr>))"

definition config_request :: "config \<Rightarrow> string \<Rightarrow> string \<Rightarrow> http_request" where
  "config_request cfg token device_id =
     \<lparr>rq_method = GET,
      rq_url = fmt_opt (BASE_URL cfg) @ ''/dna/intent/api/v1/network-device/''
               @ device_id @ ''/config'',
      rq_headers = api_headers token,
      rq_auth = None,
      rq_verify = False\<rparr>"

definition get_device_config ::
  "config \<Rightarrow> 'w server \<Rightarrow> string \<Rightarrow> string \<Rightarrow> 'w proc \<Rightarrow> (py_exn + pyval) \<times> 'w proc" where
  "get_device_config cfg srv token device_id st =
     (case requests_call srv (config_request cfg token device_id) st of
        (Failed e, st1) \<Rightarrow> (Inl e, st1)
      | (Replied response, st1) \<Rightarrow>
          (case json response of
             Inl e \<Rightarrow> (Inl e, st1)
           | Inr j \<Rightarrow> (py_getitem j ''response'', st1)))"

section \<open>ai\_agent: start-up and one turn of the conversation\<close>

text \<open>
  The module's top level reads \<^verbatim>\<open>AI_ACCESS_TOKEN\<close> from the environment (as
  \<^verbatim>\<open>os.getenv\<close> sees it once the imports have run) and raises when it is missing
  or empty. Everything after that point, \<^verbatim>\<open>main()\<close> included, is \<open>rest\<close>.
\<close>

definition OPENAI_API_KEY :: "(string \<rightharpoonup> string) \<Rightarrow> py_exn + string" where
  "OPENAI_API_KEY environ =
     (case environ ''AI_ACCESS_TOKEN'' of
        None \<Rightarrow>
          Inl (EnvironmentError
            ''OpenAI API key is missing. Please check your .env file or environment variables.'')
      | Some key \<Rightarrow>
          if key = [] then
            Inl (EnvironmentError
              ''OpenAI API key is missing. Please check your .env file or environment variables.'')
          else Inr key)"

definition ai_agent_module :: "(string \<rightharpoonup> string) \<Rightarrow> (string \<Rightarrow> py_exn + 'a) \<Rightarrow> py_exn + 'a" where
  "ai_agent_module environ rest =
     (case OPENAI_API_KEY environ of Inl e \<Rightarrow> Inl e | Inr key \<Rightarrow> rest key)"

text \<open>
  A message is a dict or some other object; of an object the program only reads the
  attribute \<^verbatim>\<open>content\<close>, and the object decides what that read does: it gives a
  value or raises (\<open>AttributeError\<close> when there is no such attribute).
\<close>

datatype message = Dict_message "(string \<times> pyval) list" | Object_message "py_exn + pyval"

text \<open>
  Lines 88 to 91: \<^verbatim>\<open>.get("content", default)\<close> on a dict, else
  \<^verbatim>\<open>getattr(m, "content", default)\<close>, which turns an \<open>AttributeError\<close> into the
  default and lets any other exception through.
\<close>

definition extract_content :: "message \<Rightarrow> py_exn + pyval" where
  "extract_content m =
     (case m of
        Dict_message kv \<Rightarrow>
          (case map_of kv ''content'' of
             None \<Rightarrow> Inr (PStr ''No content available'')
           | Some c \<Rightarrow> Inr c)
      | Object_message (Inr c) \<Rightarrow> Inr c
      | Object_message (Inl AttributeError) \<Rightarrow> Inr (PStr ''No content available'')
      | Object_message (Inl e) \<Rightarrow> Inl e)"

text \<open>
  An event of the stream is a dict; the program looks at its \<open>messages\<close> entry only,
  so an event is that entry when it is there.
\<close>

type_synonym event = "message list option"

datatype out_line =
    Print_thinking message
  | Print_error_processing py_exn

record session =
  messages :: "message list option"
  stdout :: "out_line list"

definition initialize_session_state :: "session \<Rightarrow> session" where
  "initialize_session_state st =
     (case messages st of None \<Rightarrow> st\<lparr>messages := Some []\<rparr> | Some ms \<Rightarrow> st)"

text \<open>\<^verbatim>\<open>list.append\<close>, the one operation the program applies to the transcript.\<close>

definition append_message :: "message \<Rightarrow> message list \<Rightarrow> message list" where
  "append_message m transcript = transcript @ [m]"

definition user_message :: "string \<Rightarrow> message" where
  "user_message user_input = Dict_message [(''role'', PStr ''user''), (''content'', PStr user_input)]"

definition assistant_message :: "pyval \<Rightarrow> message" where
  "assistant_message final_response =
     Dict_message [(''role'', PStr ''assistant''), (''content'', final_response)]"

text \<open>
  The \<^verbatim>\<open>for event in events\<close> loop over the events the stream has yielded, with
  the variable \<^verbatim>\<open>final_response\<close> and the output so far. Indexing an empty
  \<open>messages\<close> list with \<open>-1\<close> raises outside the \<^verbatim>\<open>try\<close>.
\<close>

fun process_events :: "event list \<Rightarrow> pyval \<Rightarrow> out_line list \<Rightarrow> (py_exn + pyval) \<times> out_line list" where
  "process_events [] final_response out = (Inr final_response, out)"
| "process_events (None # events) final_response out = process_events events final_response out"
| "process_events (Some ms # events) final_response out =
     (if ms = [] then (Inl IndexError, out)
      else
        (case extract_content (last ms) of
           Inr c \<Rightarrow> process_events events c (out @ [Print_thinking (last ms)])
         | Inl e \<Rightarrow>
             process_events events (PStr ''Error displaying response.'')
               (out @ [Print_thinking (last ms), Print_error_processing e])))"

text \<open>
  \<^verbatim>\<open>process_user_message\<close>. The graph is the caller's: given the transcript (with
  the user's message appended) it yields events and then ends, normally or with an
  exception; it reads the transcript and does not change it.
\<close>

definition process_user_message ::
  "(message list \<Rightarrow> event list \<times> py_exn option) \<Rightarrow> string \<Rightarrow> session \<Rightarrow> (py_exn + unit) \<times> session" where
  "process_user_message graph user_input st =
     (case messages st of
        None \<Rightarrow> (Inl AttributeError, st)
      | Some transcript \<Rightarrow>
          (let transcript1 = append_message (user_message user_input) transcript in
           case graph transcript1 of
             (events, stream_end) \<Rightarrow>
               (case process_events events PNone (stdout st) of
                  (Inl e, out) \<Rightarrow> (Inl e, st\<lparr>messages := Some transcript1, stdout := out\<rparr>)
                | (Inr final_response, out) \<Rightarrow>
                    (case stream_end of
                       Some e \<Rightarrow> (Inl e, st\<lparr>messages := Some transcript1, stdout := out\<rparr>)
                     | None \<Rightarrow>
                         if truthy final_response then
                           (Inr (), st\<lparr>messages :=
                                         Some (append_message (assistant_message final_response)
                                                 transcript1),
                                       stdout := out\<rparr>)
                         else (Inr (), st\<lparr>messages := Some transcript1, stdout := out\<rparr>)))))"

section \<open>Servers used to state the properties\<close>

text \<open>
  A server that answers the requests it receives with a fixed list of outcomes, in
  order, whatever the request; once the list is used up it answers \<open>dflt\<close>.
\<close>

fun script_server :: "http_outcome \<Rightarrow> http_outcome list server" where
  "script_server dflt [] rq = (dflt, [])"
| "script_server dflt (out # outs) rq = (out, outs)"

text \<open>
  The page of device records a well-formed inventory response carries: the list under
  \<open>response\<close>; a body without that field is a page without records.
\<close>

definition page_of :: "http_response \<Rightarrow> pyval list option" where
  "page_of r =
     (case json r of
        Inr (PDict kv) \<Rightarrow>
          (case map_of kv ''response'' of
             None \<Rightarrow> Some []
           | Some (PList recs) \<Rightarrow> Some recs
           | Some _ \<Rightarrow> None)
      | _ \<Rightarrow> None)"

definition empty_page :: http_response where
  \<open>empty_page =
     \<lparr>text_body = ''{"response": []}'', json = Inr (PDict [(''response'', PList [])])\<rparr>\<close>

text \<open>Concrete inputs for the examples: a configuration, responses, a fresh process.\<close>

definition demo_config :: config where
  "demo_config =
     \<lparr>BASE_URL = Some ''https://cc.example'', USERNAME = Some ''admin'', PASSWORD = Some ''secret''\<rparr>"

definition device :: "string \<Rightarrow> pyval" where
  "device name = PDict [(''id'', PStr name)]"

definition page_response :: "string \<Rightarrow> pyval list \<Rightarrow> http_response" where
  "page_response body recs = \<lparr>text_body = body, json = Inr (PDict [(''response'', PList recs)])\<rparr>"

definition fresh :: "'w \<Rightarrow> 'w proc" where
  "fresh w = \<lparr>world = w, sent = [], printed = [], TOKEN = PStr []\<rparr>"

definition bad_credentials :: http_response where
  \<open>bad_credentials =
     \<lparr>text_body = ''{"error": "bad credentials"}'',
      json = Inr (PDict [(''error'', PStr ''bad credentials'')])\<rparr>\<close>

definition token_and_error :: http_response where
  \<open>token_and_error =
     \<lparr>text_body = ''{"Token": "abc123", "error": "none"}'',
      json = Inr (PDict [(''Token'', PStr ''abc123''), (''error'', PStr ''none'')])\<rparr>\<close>

definition token_ok :: http_response where
  \<open>token_ok =
     \<lparr>text_body = ''{"Token": "abc123"}'',
      json = Inr (PDict [(''Token'', PStr ''abc123'')])\<rparr>\<close>

definition config_ok :: http_response where
  \<open>config_ok =
     \<lparr>text_body = ''{"response": "hostname sw1"}'',
      json = Inr (PDict [(''response'', PStr ''hostname sw1'')])\<rparr>\<close>

definition config_version_only :: http_response where
  \<open>config_version_only =
     \<lparr>text_body = ''{"version": "1.0"}'',
      json = Inr (PDict [(''version'', PStr ''1.0'')])\<rparr>\<close>

definition failing_message :: message where
  "failing_message = Object_message (Inl (RuntimeError ''content unavailable''))"

definition new_session :: session where
  "new_session = \<lparr>messages = Some [], stdout = []\<rparr>"

section \<open>Auxiliary facts\<close>

lemma str_contains_iff: "str_contains p s \<longleftrightarrow> (\<exists>pre suf. s = pre @ p @ suf)"
proof (induction s)
  case Nil
  then show ?case by auto
next
  case (Cons c cs)
  show ?case
  proof
    assume "str_contains p (c # cs)"
    then consider "prefix p (c # cs)" | "str_contains p cs" by auto
    then show "\<exists>pre suf. c # cs = pre @ p @ suf"
    proof cases
      case 1
      then obtain suf where "c # cs = p @ suf" by (auto simp: prefix_def)
      then have "c # cs = [] @ p @ suf" by simp
      then show ?thesis by blast
    next
      case 2
      with Cons.IH obtain pre suf where "cs = pre @ p @ suf" by blast
      then have "c # cs = (c # pre) @ p @ suf" by simp
      then show ?thesis by blast
    qed
  next
    assume "\<exists>pre suf. c # cs = pre @ p @ suf"
    then obtain pre suf where eq: "c # cs = pre @ p @ suf" by blast
    show "str_contains p (c # cs)"
    proof (cases pre)
      case Nil
      with eq have "prefix p (c # cs)" by (simp add: prefix_def)
      then show ?thesis by simp
    next
      case (Cons a pre')
      with eq have "cs = pre' @ p @ suf" by simp
      with Cons.IH have "str_contains p cs" by blast
      then show ?thesis by simp
    qed
  qed
qed

lemma read_page_of:
  "page_of r = Some p \<Longrightarrow> read_page (Replied r) = (if p = [] then No_more else Items p)"
  by (auto simp: page_of_def read_page_def split: sum.splits pyval.splits option.splits)

lemma loop_step:
  "srv (world st) (inventory_request cfg tok off) = (out, w') \<Longrightarrow>
   inventory_loop cfg srv tok acc off st =
     (case read_page out of
        Raised e \<Rightarrow> Some (Some e, acc, st\<lparr>world := w', sent := sent st @ [inventory_request cfg tok off]\<rparr>)
      | Items items \<Rightarrow> inventory_loop cfg srv tok (acc @ items) (off + 500)
            (st\<lparr>world := w', sent := sent st @ [inventory_request cfg tok off]\<rparr>)
      | No_more \<Rightarrow> Some (None, acc, st\<lparr>world := w', sent := sent st @ [inventory_request cfg tok off]\<rparr>))"
  by (subst inventory_loop.simps) (simp add: requests_call_def limit_def cong: page_result.case_cong)


lemma loop_script_items:
  "list_all2 (\<lambda>out p. read_page out = Items p) outs ps \<Longrightarrow>
   inventory_loop cfg (script_server d) tok acc off
      \<lparr>world = outs @ rest, sent = s, printed = pr, TOKEN = t\<rparr> =
   inventory_loop cfg (script_server d) tok (acc @ concat ps) (off + 500 * int (length ps))
      \<lparr>world = rest, sent = s @ map (inventory_request cfg tok) (map (\<lambda>k. off + 500 * int k) [0..<length ps]),
       printed = pr, TOKEN = t\<rparr>"
proof (induction outs ps arbitrary: acc off s rule: list_all2_induct)
  case Nil
  then show ?case by simp
next
  case (Cons out outs p ps)
  have step: "inventory_loop cfg (script_server d) tok acc off
      \<lparr>world = (out # outs) @ rest, sent = s, printed = pr, TOKEN = t\<rparr> =
     inventory_loop cfg (script_server d) tok (acc @ p) (off + 500)
      \<lparr>world = outs @ rest, sent = s @ [inventory_request cfg tok off], printed = pr, TOKEN = t\<rparr>"
    using Cons.hyps(1) by (subst loop_step[where out = out and w' = "outs @ rest"]) simp_all
  have e1: "(acc @ p) @ concat ps = acc @ concat (p # ps)"
    by simp
  have e2: "off + 500 + 500 * int (length ps) = off + 500 * int (length (p # ps))"
    by simp
  have "map (\<lambda>k. off + 500 * int k) [0..<Suc (length ps)] =
        off # map (\<lambda>k. off + 500 + 500 * int k) [0..<length ps]"
    by (simp add: upt_conv_Cons map_Suc_upt[symmetric] del: upt_Suc)
  then have e3: "(s @ [inventory_request cfg tok off]) @
          map (inventory_request cfg tok) (map (\<lambda>k. off + 500 + 500 * int k) [0..<length ps]) =
        s @ map (inventory_request cfg tok) (map (\<lambda>k. off + 500 * int k) [0..<length (p # ps)])"
    by simp
  show ?case
    unfolding step Cons.IH by (simp only: e1 e2 e3)
qed


lemma inventory_script_end:
  assumes items: "list_all2 (\<lambda>out p. read_page out = Items p) outs ps"
    and nxt: "script_server d rest (inventory_request cfg tok (1 + 500 * int (length ps))) = (out, rest')"
    and fin: "read_page out = No_more"
  shows "get_device_inventory cfg (script_server d) tok
           \<lparr>world = outs @ rest, sent = s, printed = pr, TOKEN = t\<rparr> =
         Some (concat ps,
           \<lparr>world = rest',
            sent = s @ map (inventory_request cfg tok) (map (\<lambda>k. 1 + 500 * int k) [0..<Suc (length ps)]),
            printed = pr, TOKEN = t\<rparr>)"
  unfolding get_device_inventory_def loop_script_items[OF items]
  by (subst loop_step[where out = out and w' = rest']) (use nxt fin in simp_all)

lemma inventory_script_raise:
  assumes items: "list_all2 (\<lambda>out p. read_page out = Items p) outs ps"
    and nxt: "script_server d rest (inventory_request cfg tok (1 + 500 * int (length ps))) = (out, rest')"
    and fin: "read_page out = Raised e"
  shows "get_device_inventory cfg (script_server d) tok
           \<lparr>world = outs @ rest, sent = s, printed = pr, TOKEN = t\<rparr> =
         Some (concat ps,
           \<lparr>world = rest',
            sent = s @ map (inventory_request cfg tok) (map (\<lambda>k. 1 + 500 * int k) [0..<Suc (length ps)]),
            printed = pr @ [e], TOKEN = t\<rparr>)"
  unfolding get_device_inventory_def loop_script_items[OF items]
  by (subst loop_step[where out = out and w' = rest']) (use nxt fin in simp_all)

lemma read_page_empty_page: "read_page (Replied empty_page) = No_more"
  by (simp add: read_page_def empty_page_def)

lemma pages_items:
  "map page_of rs = map Some ps \<Longrightarrow> \<forall>p\<in>set ps. p \<noteq> [] \<Longrightarrow>
   list_all2 (\<lambda>out p. read_page out = Items p) (map Replied rs) ps"
proof (induction rs arbitrary: ps)
  case Nil
  then show ?case by simp
next
  case (Cons r rs)
  then obtain p ps' where ps: "ps = p # ps'" by (cases ps) auto
  with Cons.prems have "page_of r = Some p" "p \<noteq> []" "map page_of rs = map Some ps'" "\<forall>p\<in>set ps'. p \<noteq> []"
    by auto
  with Cons.IH[of ps'] show ?case
    unfolding ps by (simp add: read_page_of)
qed

lemma str_contains_suffix: "str_contains p (a @ p)"
proof -
  have "a @ p = a @ p @ []" by simp
  then show ?thesis unfolding str_contains_iff by blast
qed

lemma process_events_append:
  "process_events pre fr out = (Inr fr', out') \<Longrightarrow>
   process_events (pre @ evs) fr out = process_events evs fr' out'"
proof (induction pre fr out rule: process_events.induct)
  case (1 final_response out)
  then show ?case by simp
next
  case (2 events final_response out)
  then show ?case by simp
next
  case (3 ms events final_response out)
  then show ?case
    by (cases "ms = []"; cases "extract_content (last ms)") auto
qed

lemma process_events_no_messages:
  "process_events (replicate n None) final_response out = (Inr final_response, out)"
  by (induction n) simp_all

section \<open>Properties of the device API client\<close>

subsection \<open>Pagination\<close>

text \<open>
  Claim C1, as the code has it. The server answers the requests with the pages of a
  sequence, in order, and with an empty page once the sequence is used up; every page
  before the last has exactly 500 records and the last has fewer. Then
  \<^verbatim>\<open>get_device_inventory\<close> returns the records of all pages in the server's order.
  It asks at the offsets 1, 501, 1001, ..., one request more than there are pages with
  records, because only a page without records stops it: the offset of the final
  request is 1 + 500 * (number of pages with records). That is
  1 + 500 * (number of full pages) exactly when the last page is empty.
\<close>

theorem get_device_inventory_pages:
  assumes full: "\<forall>p\<in>set full. length p = 500"
    and short: "length lastp < 500"
    and pages: "map page_of rs = map Some (full @ [lastp])"
  shows "\<exists>st'. get_device_inventory cfg (script_server (Replied empty_page)) tok
                 \<lparr>world = map Replied rs, sent = s, printed = pr, TOKEN = t\<rparr> =
               Some (concat (full @ [lastp]), st')
           \<and> sent st' = s @ map (inventory_request cfg tok)
                 (map (\<lambda>k. 1 + 500 * int k) [0..<Suc (length full + (if lastp = [] then 0 else 1))])
           \<and> last (sent st') =
                 inventory_request cfg tok (1 + 500 * int (length full + (if lastp = [] then 0 else 1)))
           \<and> world st' = [] \<and> printed st' = pr \<and> TOKEN st' = t"
proof (cases "lastp = []")
  case True
  from pages obtain rs' r where rs: "rs = rs' @ [r]"
    by (cases rs rule: rev_cases) auto
  with pages True have p1: "map page_of rs' = map Some full" and p2: "page_of r = Some []"
    by auto
  from full have ne: "\<forall>p\<in>set full. p \<noteq> []" by auto
  have nxt: "script_server (Replied empty_page) [Replied r]
               (inventory_request cfg tok (1 + 500 * int (length full))) = (Replied r, [])"
    by simp
  have fin: "read_page (Replied r) = No_more"
    using read_page_of[OF p2] by simp
  have "get_device_inventory cfg (script_server (Replied empty_page)) tok
          \<lparr>world = map Replied rs' @ [Replied r], sent = s, printed = pr, TOKEN = t\<rparr> =
        Some (concat full,
          \<lparr>world = [],
           sent = s @ map (inventory_request cfg tok) (map (\<lambda>k. 1 + 500 * int k) [0..<Suc (length full)]),
           printed = pr, TOKEN = t\<rparr>)"
    by (rule inventory_script_end[OF pages_items[OF p1 ne] nxt fin])
  then show ?thesis
    using True rs by simp
next
  case False
  from full False have ne: "\<forall>p\<in>set (full @ [lastp]). p \<noteq> []" by auto
  have nxt: "script_server (Replied empty_page) []
               (inventory_request cfg tok (1 + 500 * int (length (full @ [lastp])))) =
             (Replied empty_page, [])"
    by simp
  have "get_device_inventory cfg (script_server (Replied empty_page)) tok
          \<lparr>world = map Replied rs @ [], sent = s, printed = pr, TOKEN = t\<rparr> =
        Some (concat (full @ [lastp]),
          \<lparr>world = [],
           sent = s @ map (inventory_request cfg tok)
                   (map (\<lambda>k. 1 + 500 * int k) [0..<Suc (length (full @ [lastp]))]),
           printed = pr, TOKEN = t\<rparr>)"
    by (rule inventory_script_end[OF pages_items[OF pages ne] nxt read_page_empty_page])
  then show ?thesis
    using False by simp
qed

text \<open>Two pages, of 500 records and of one record: three requests, the last at 1001.\<close>

theorem get_device_inventory_pages_witness:
  "length (replicate 500 (device ''a'')) = 500 \<and> length [device ''b''] < 500 \<and>
   map page_of [page_response ''page 1'' (replicate 500 (device ''a'')), page_response ''page 2'' [device ''b'']] =
     map Some ([replicate 500 (device ''a'')] @ [[device ''b'']]) \<and>
   (\<exists>st'. get_device_inventory demo_config (script_server (Replied empty_page)) ''tok''
            \<lparr>world = map Replied [page_response ''page 1'' (replicate 500 (device ''a'')), page_response ''page 2'' [device ''b'']],
             sent = [], printed = [], TOKEN = PStr []\<rparr> =
          Some (concat ([replicate 500 (device ''a'')] @ [[device ''b'']]), st')
      \<and> last (sent st') = inventory_request demo_config ''tok'' 1001)"
proof -
  have h1: "\<forall>p\<in>set [replicate 500 (device ''a'')]. length p = 500" by simp
  have h2: "length [device ''b''] < 500" by simp
  have h3: "map page_of [page_response ''page 1'' (replicate 500 (device ''a'')), page_response ''page 2'' [device ''b'']] =
     map Some ([replicate 500 (device ''a'')] @ [[device ''b'']])"
    by (simp add: page_of_def page_response_def)
  from get_device_inventory_pages[OF h1 h2 h3, where cfg = demo_config and tok = "''tok''"
      and s = "[]" and pr = "[]" and t = "PStr []"]
  show ?thesis using h1 h2 h3 by auto
qed

text \<open>
  The claim as written gives 1 + 500 * (number of full pages) for the final offset. A
  single page with one record has no full page before it, yet the program sends a
  second request, at offset 501.
\<close>

theorem get_device_inventory_final_offset_counterexample:
  "get_device_inventory demo_config (script_server (Replied empty_page)) ''tok''
     (fresh [Replied (page_response ''one device'' [device ''d1''])]) =
   Some ([device ''d1''],
     \<lparr>world = [],
      sent = [inventory_request demo_config ''tok'' 1, inventory_request demo_config ''tok'' 501],
      printed = [], TOKEN = PStr []\<rparr>)
   \<and> length [device ''d1''] < 500
   \<and> inventory_request demo_config ''tok'' 501 \<noteq> inventory_request demo_config ''tok'' (1 + 500 * int (length ([] :: pyval list list)))"
proof -
  have items: "list_all2 (\<lambda>out p. read_page out = Items p)
                 [Replied (page_response ''one device'' [device ''d1''])] [[device ''d1'']]"
    by (simp add: read_page_def page_response_def)
  have nxt: "script_server (Replied empty_page) []
               (inventory_request demo_config ''tok'' (1 + 500 * int (length [[device ''d1'']]))) =
             (Replied empty_page, [])"
    by simp
  have run: "get_device_inventory demo_config (script_server (Replied empty_page)) ''tok''
     (fresh [Replied (page_response ''one device'' [device ''d1''])]) =
   Some ([device ''d1''],
     \<lparr>world = [],
      sent = [inventory_request demo_config ''tok'' 1, inventory_request demo_config ''tok'' 501],
      printed = [], TOKEN = PStr []\<rparr>)"
    using inventory_script_end[OF items nxt read_page_empty_page, where s = "[]" and pr = "[]" and t = "PStr []"]
    by (simp add: fresh_def)
  have s1: "str_int 1 = ''1''" by code_simp
  have s501: "str_int 501 = ''501''" by code_simp
  have "inventory_request demo_config ''tok'' 501 \<noteq> inventory_request demo_config ''tok'' 1"
    by (simp add: inventory_request_def s1 s501)
  with run show ?thesis by simp
qed

text \<open>
  Claim C6: when the first page has no records, \<^verbatim>\<open>get_device_inventory\<close> returns
  the empty list, prints nothing, and has sent exactly one request (at offset 1),
  whatever the server is.
\<close>

theorem get_device_inventory_empty_first_page:
  assumes "srv (world st) (inventory_request cfg tok 1) = (Replied r, w')"
    and "page_of r = Some []"
  shows "get_device_inventory cfg srv tok st =
           Some ([], st\<lparr>world := w', sent := sent st @ [inventory_request cfg tok 1]\<rparr>)"
  unfolding get_device_inventory_def
  by (subst loop_step[where srv = srv and st = st and out = "Replied r" and w' = w'])
    (simp_all add: assms(1) read_page_of[OF assms(2)])


theorem get_device_inventory_empty_first_page_witness:
  "script_server (Replied empty_page) (world (fresh [Replied empty_page]))
     (inventory_request demo_config ''tok'' 1) = (Replied empty_page, [])
   \<and> page_of empty_page = Some []
   \<and> get_device_inventory demo_config (script_server (Replied empty_page)) ''tok''
         (fresh [Replied empty_page]) =
       Some ([], \<lparr>world = [], sent = [inventory_request demo_config ''tok'' 1],
                   printed = [], TOKEN = PStr []\<rparr>)"
proof -
  have h1: "script_server (Replied empty_page) (world (fresh [Replied empty_page]))
              (inventory_request demo_config ''tok'' 1) = (Replied empty_page, [])"
    by (simp add: fresh_def)
  have h2: "page_of empty_page = Some []"
    by (simp add: page_of_def empty_page_def)
  show ?thesis
    using get_device_inventory_empty_first_page[where srv = "script_server (Replied empty_page)"
        and st = "fresh [Replied empty_page]" and cfg = demo_config and tok = "''tok''"
        and r = empty_page and w' = "[]", OF h1 h2] h1 h2
    by (simp add: fresh_def)
qed

text \<open>
  Claim C3: when the body of the loop raises while a page is being fetched (the HTTP
  call fails, the body is not JSON, or it has not the shape of a page), nothing is
  raised to the caller: \<^verbatim>\<open>get_device_inventory\<close> returns, the exception has been
  printed, and the result holds the records of the pages fetched before, in order. The
  outcomes after the failure are never asked for.
\<close>

theorem get_device_inventory_failure_degrades:
  assumes "list_all2 (\<lambda>out p. read_page out = Items p) outs ps"
    and "read_page out = Raised e"
  shows "get_device_inventory cfg (script_server d) tok
           \<lparr>world = outs @ out # rest, sent = s, printed = pr, TOKEN = t\<rparr> =
         Some (concat ps,
           \<lparr>world = rest,
            sent = s @ map (inventory_request cfg tok) (map (\<lambda>k. 1 + 500 * int k) [0..<Suc (length ps)]),
            printed = pr @ [e], TOKEN = t\<rparr>)"
  by (rule inventory_script_raise[OF assms(1) _ assms(2)]) simp


text \<open>A transport failure at page 2 of 3 leaves exactly the records of page 1.\<close>

theorem get_device_inventory_failure_degrades_witness:
  "list_all2 (\<lambda>out p. read_page out = Items p)
     [Replied (page_response ''page 1'' [device ''a'', device ''b''])] [[device ''a'', device ''b'']]
   \<and> read_page (Failed (RequestException ''connection reset'')) = Raised (RequestException ''connection reset'')
   \<and> get_device_inventory demo_config (script_server (Replied empty_page)) ''tok''
         \<lparr>world = [Replied (page_response ''page 1'' [device ''a'', device ''b''])]
                  @ Failed (RequestException ''connection reset'')
                  # [Replied (page_response ''page 3'' [device ''c''])],
          sent = [], printed = [], TOKEN = PStr []\<rparr> =
       Some (concat [[device ''a'', device ''b'']],
         \<lparr>world = [Replied (page_response ''page 3'' [device ''c''])],
          sent = [] @ map (inventory_request demo_config ''tok'')
                   (map (\<lambda>k. 1 + 500 * int k) [0..<Suc (length [[device ''a'', device ''b'']])]),
          printed = [] @ [RequestException ''connection reset''], TOKEN = PStr []\<rparr>)"
proof -
  have h1: "list_all2 (\<lambda>out p. read_page out = Items p)
     [Replied (page_response ''page 1'' [device ''a'', device ''b''])] [[device ''a'', device ''b'']]"
    by (simp add: read_page_def page_response_def)
  have h2: "read_page (Failed (RequestException ''connection reset'')) = Raised (RequestException ''connection reset'')"
    by (simp add: read_page_def)
  show ?thesis
    using get_device_inventory_failure_degrades[OF h1 h2] h1 h2 by blast
qed

subsection \<open>Authentication\<close>

text \<open>
  Claim C2: when the answer of the token endpoint carries an error (its text contains
  \<open>error\<close> and its JSON is an object whose field \<open>error\<close> is the reason string),
  \<^verbatim>\<open>get_auth_token\<close> raises instead of returning: the exception is the
  \<open>ValueError\<close> of line 40 and its message ends with the reason the provider gave.
  \<^verbatim>\<open>_TOKEN\<close> keeps its value.
\<close>

theorem get_auth_token_error_reason:
  assumes "srv (world st) (auth_request cfg) = (Replied r, w')"
    and "str_contains ''error'' (text_body r)"
    and "json r = Inr (PDict kv)"
    and "map_of kv ''error'' = Some (PStr reason)"
  shows "\<exists>msg. get_auth_token cfg repr srv st =
           (Inl (ValueError msg), st\<lparr>world := w', sent := sent st @ [auth_request cfg]\<rparr>)
         \<and> msg = ''ERROR: Failed to retrieve Access Token! REASON: '' @ reason
         \<and> str_contains reason msg"
proof -
  let ?msg = "''ERROR: Failed to retrieve Access Token! REASON: '' @ reason"
  have "get_auth_token cfg repr srv st =
          (Inl (ValueError ?msg), st\<lparr>world := w', sent := sent st @ [auth_request cfg]\<rparr>)"
    using assms by (simp add: get_auth_token_def requests_call_def py_str_def)
  moreover have "str_contains reason ?msg"
    by (rule str_contains_suffix)
  ultimately show ?thesis
    by blast
qed

theorem get_auth_token_error_reason_witness:
  "script_server (Replied empty_page) (world (fresh [Replied bad_credentials])) (auth_request demo_config) =
     (Replied bad_credentials, [])
   \<and> str_contains ''error'' (text_body bad_credentials)
   \<and> json bad_credentials = Inr (PDict [(''error'', PStr ''bad credentials'')])
   \<and> map_of [(''error'', PStr ''bad credentials'')] ''error'' = Some (PStr ''bad credentials'')
   \<and> get_auth_token demo_config (\<lambda>v. []) (script_server (Replied empty_page)) (fresh [Replied bad_credentials]) =
       (Inl (ValueError ''ERROR: Failed to retrieve Access Token! REASON: bad credentials''),
        \<lparr>world = [], sent = [auth_request demo_config], printed = [], TOKEN = PStr []\<rparr>)
   \<and> str_contains ''bad credentials'' ''ERROR: Failed to retrieve Access Token! REASON: bad credentials''"
proof -
  have h1: "script_server (Replied empty_page) (world (fresh [Replied bad_credentials])) (auth_request demo_config) =
     (Replied bad_credentials, [])"
    by (simp add: fresh_def)
  have h2: "str_contains ''error'' (text_body bad_credentials)"
    by (simp add: bad_credentials_def)
  have h3: "json bad_credentials = Inr (PDict [(''error'', PStr ''bad credentials'')])"
    by (simp add: bad_credentials_def)
  have h4: "map_of [(''error'', PStr ''bad credentials'')] ''error'' = Some (PStr ''bad credentials'')"
    by simp
  show ?thesis
    using get_auth_token_error_reason[where srv = "script_server (Replied empty_page)"
        and st = "fresh [Replied bad_credentials]" and cfg = demo_config and repr = "\<lambda>v. []", OF h1 h2 h3 h4]
      h1 h2 h3 h4
    by (auto simp: fresh_def)
qed

text \<open>
  Claim C4: success and failure are decided by a substring test on the body text.
  Whenever \<open>error\<close> occurs anywhere in the text, the call raises and
  \<^verbatim>\<open>_TOKEN\<close> keeps its value, whatever else the body holds (a valid
  \<open>Token\<close> field included); a token is returned only when \<open>error\<close> occurs
  nowhere in the text.
\<close>

theorem get_auth_token_substring_test:
  assumes "srv (world st) (auth_request cfg) = (Replied r, w')"
  shows "(text_body r = pre @ ''error'' @ suf \<longrightarrow>
            (\<exists>e. get_auth_token cfg repr srv st =
                   (Inl e, st\<lparr>world := w', sent := sent st @ [auth_request cfg]\<rparr>)))
       \<and> (fst (get_auth_token cfg repr srv st) = Inr tok \<longrightarrow>
            \<not> str_contains ''error'' (text_body r) \<and> (\<nexists>a b. text_body r = a @ ''error'' @ b))"
proof (intro conjI impI)
  have call: "requests_call srv (auth_request cfg) st =
                (Replied r, st\<lparr>world := w', sent := sent st @ [auth_request cfg]\<rparr>)"
    using assms by (simp add: requests_call_def)
  assume "text_body r = pre @ ''error'' @ suf"
  then have "str_contains ''error'' (text_body r)"
    unfolding str_contains_iff by blast
  then show "\<exists>e. get_auth_token cfg repr srv st =
                   (Inl e, st\<lparr>world := w', sent := sent st @ [auth_request cfg]\<rparr>)"
    by (simp add: get_auth_token_def call split: sum.split)
next
  have call: "requests_call srv (auth_request cfg) st =
                (Replied r, st\<lparr>world := w', sent := sent st @ [auth_request cfg]\<rparr>)"
    using assms by (simp add: requests_call_def)
  assume ok: "fst (get_auth_token cfg repr srv st) = Inr tok"
  then show "\<not> str_contains ''error'' (text_body r)"
    by (auto simp: get_auth_token_def call split: sum.splits if_splits)
  then show "\<nexists>a b. text_body r = a @ ''error'' @ b"
    unfolding str_contains_iff by simp
qed

text \<open>A body with both a token and an \<open>error\<close> field raises; one with the token alone returns it.\<close>

theorem get_auth_token_substring_test_witness:
  "(\<exists>e. get_auth_token demo_config (\<lambda>v. []) (script_server (Replied empty_page)) (fresh [Replied token_and_error]) =
         (Inl e, \<lparr>world = [], sent = [auth_request demo_config], printed = [], TOKEN = PStr []\<rparr>))
   \<and> fst (get_auth_token demo_config (\<lambda>v. []) (script_server (Replied empty_page)) (fresh [Replied token_ok])) =
       Inr (PStr ''abc123'')
   \<and> \<not> str_contains ''error'' (text_body token_ok)"
proof -
  have h1: "script_server (Replied empty_page) (world (fresh [Replied token_and_error])) (auth_request demo_config) =
     (Replied token_and_error, [])"
    by (simp add: fresh_def)
  have t1: \<open>text_body token_and_error = ''{"Token": "abc123", "'' @ ''error'' @ ''": "none"}''\<close>
    by (simp add: token_and_error_def)
  have h2: "script_server (Replied empty_page) (world (fresh [Replied token_ok])) (auth_request demo_config) =
     (Replied token_ok, [])"
    by (simp add: fresh_def)
  have r2: "fst (get_auth_token demo_config (\<lambda>v. []) (script_server (Replied empty_page)) (fresh [Replied token_ok])) =
       Inr (PStr ''abc123'')"
    by (simp add: get_auth_token_def requests_call_def fresh_def token_ok_def)
  note sub = get_auth_token_substring_test[where srv = "script_server (Replied empty_page)"
        and st = "fresh [Replied token_and_error]" and cfg = demo_config and repr = "\<lambda>v. []"
        and pre = \<open>''{"Token": "abc123", "''\<close> and suf = \<open>''": "none"}''\<close>, OF h1]
  from sub[THEN conjunct1, rule_format, OF t1]
  have a: "\<exists>e. get_auth_token demo_config (\<lambda>v. []) (script_server (Replied empty_page)) (fresh [Replied token_and_error]) =
         (Inl e, \<lparr>world = [], sent = [auth_request demo_config], printed = [], TOKEN = PStr []\<rparr>)"
    by (simp add: fresh_def)
  from get_auth_token_substring_test[where srv = "script_server (Replied empty_page)"
        and st = "fresh [Replied token_ok]" and cfg = demo_config and repr = "\<lambda>v. []", OF h2] r2
  have b: "\<not> str_contains ''error'' (text_body token_ok)"
    by blast
  from a r2 b show ?thesis by blast
qed

text \<open>
  Claim C7: a successful call leaves \<^verbatim>\<open>_TOKEN\<close> equal to the token it returns,
  and changes nothing else of the process: nothing is printed, and the rest of the state
  differs only by the one request sent and the server's own state.
\<close>

theorem get_auth_token_updates_TOKEN:
  assumes "get_auth_token cfg repr srv st = (Inr tok, st')"
  shows "TOKEN st' = tok \<and> printed st' = printed st
       \<and> st' = st\<lparr>world := world st', sent := sent st @ [auth_request cfg], TOKEN := tok\<rparr>"
  using assms
  by (auto simp: get_auth_token_def requests_call_def
           split: prod.splits http_outcome.splits sum.splits if_splits)


theorem get_auth_token_updates_TOKEN_witness:
  "get_auth_token demo_config (\<lambda>v. []) (script_server (Replied empty_page)) (fresh [Replied token_ok]) =
     (Inr (PStr ''abc123''),
      \<lparr>world = [], sent = [auth_request demo_config], printed = [], TOKEN = PStr ''abc123''\<rparr>)
   \<and> TOKEN \<lparr>world = ([] :: http_outcome list), sent = [auth_request demo_config], printed = [],
              TOKEN = PStr ''abc123''\<rparr> = PStr ''abc123''"
proof -
  have r: "get_auth_token demo_config (\<lambda>v. []) (script_server (Replied empty_page)) (fresh [Replied token_ok]) =
     (Inr (PStr ''abc123''),
      \<lparr>world = [], sent = [auth_request demo_config], printed = [], TOKEN = PStr ''abc123''\<rparr>)"
    by (simp add: get_auth_token_def requests_call_def fresh_def token_ok_def)
  from get_auth_token_updates_TOKEN[OF r] r show ?thesis by simp
qed

subsection \<open>Device configuration\<close>

text \<open>
  Claim C5: \<^verbatim>\<open>get_device_config\<close> sends one request and catches nothing. If the
  call fails, that exception is raised; if the body is not JSON, that exception is
  raised; if the JSON object has no field \<open>response\<close>, \<open>KeyError\<close> is raised;
  if it has, the value of the field is returned as it is. A value is returned in no
  other case, so there is no partial or default result. Nothing is printed.
\<close>

theorem get_device_config_raises_or_returns_field:
  assumes "srv (world st) (config_request cfg tok dev) = (out, w')"
  shows "snd (get_device_config cfg srv tok dev st) =
           st\<lparr>world := w', sent := sent st @ [config_request cfg tok dev]\<rparr>
       \<and> (out = Failed e \<longrightarrow> fst (get_device_config cfg srv tok dev st) = Inl e)
       \<and> (out = Replied r \<and> json r = Inl e \<longrightarrow> fst (get_device_config cfg srv tok dev st) = Inl e)
       \<and> (out = Replied r \<and> json r = Inr (PDict kv) \<and> map_of kv ''response'' = None \<longrightarrow>
            fst (get_device_config cfg srv tok dev st) = Inl (KeyError ''response''))
       \<and> (out = Replied r \<and> json r = Inr (PDict kv) \<and> map_of kv ''response'' = Some v \<longrightarrow>
            fst (get_device_config cfg srv tok dev st) = Inr v)
       \<and> (fst (get_device_config cfg srv tok dev st) = Inr v \<longrightarrow>
            (\<exists>r kv. out = Replied r \<and> json r = Inr (PDict kv) \<and> map_of kv ''response'' = Some v))"
proof -
  have call: "requests_call srv (config_request cfg tok dev) st =
                (out, st\<lparr>world := w', sent := sent st @ [config_request cfg tok dev]\<rparr>)"
    using assms by (simp add: requests_call_def)
  have ret: "fst (get_device_config cfg srv tok dev st) = Inr v \<Longrightarrow>
            (\<exists>r kv. out = Replied r \<and> json r = Inr (PDict kv) \<and> map_of kv ''response'' = Some v)"
  proof -
    assume a: "fst (get_device_config cfg srv tok dev st) = Inr v"
    then obtain r j where r: "out = Replied r" "json r = Inr j" "py_getitem j ''response'' = Inr v"
      by (auto simp: get_device_config_def call split: http_outcome.splits sum.splits)
    then obtain kv where "j = PDict kv" "map_of kv ''response'' = Some v"
      by (cases j) (auto split: option.splits)
    with r show ?thesis by blast
  qed
  show ?thesis
    using ret by (auto simp: get_device_config_def call split: http_outcome.splits sum.splits)
qed


theorem get_device_config_raises_or_returns_field_witness:
  "fst (get_device_config demo_config (script_server (Replied empty_page)) ''tok'' ''dev1''
          (fresh [Failed (RequestException ''timeout'')])) = Inl (RequestException ''timeout'')
   \<and> fst (get_device_config demo_config (script_server (Replied empty_page)) ''tok'' ''dev1''
          (fresh [Replied config_version_only])) = Inl (KeyError ''response'')
   \<and> fst (get_device_config demo_config (script_server (Replied empty_page)) ''tok'' ''dev1''
          (fresh [Replied config_ok])) = Inr (PStr ''hostname sw1'')"
proof -
  have h1: "script_server (Replied empty_page) (world (fresh [Failed (RequestException ''timeout'')]))
              (config_request demo_config ''tok'' ''dev1'') = (Failed (RequestException ''timeout''), [])"
    by (simp add: fresh_def)
  have h2: "script_server (Replied empty_page) (world (fresh [Replied config_version_only]))
              (config_request demo_config ''tok'' ''dev1'') = (Replied config_version_only, [])"
    by (simp add: fresh_def)
  have h3: "script_server (Replied empty_page) (world (fresh [Replied config_ok]))
              (config_request demo_config ''tok'' ''dev1'') = (Replied config_ok, [])"
    by (simp add: fresh_def)
  have j2: "json config_version_only = Inr (PDict [(''version'', PStr ''1.0'')])"
    "map_of [(''version'', PStr ''1.0'')] ''response'' = None"
    by (simp_all add: config_version_only_def)
  have j3: "json config_ok = Inr (PDict [(''response'', PStr ''hostname sw1'')])"
    "map_of [(''response'', PStr ''hostname sw1'')] ''response'' = Some (PStr ''hostname sw1'')"
    by (simp_all add: config_ok_def)
  from get_device_config_raises_or_returns_field[where srv = "script_server (Replied empty_page)"
      and st = "fresh [Failed (RequestException ''timeout'')]" and e = "RequestException ''timeout''", OF h1]
  have a: "fst (get_device_config demo_config (script_server (Replied empty_page)) ''tok'' ''dev1''
          (fresh [Failed (RequestException ''timeout'')])) = Inl (RequestException ''timeout'')"
    by blast
  from get_device_config_raises_or_returns_field[where srv = "script_server (Replied empty_page)"
      and st = "fresh [Replied config_version_only]" and r = config_version_only
      and kv = "[(''version'', PStr ''1.0'')]", OF h2] j2
  have b: "fst (get_device_config demo_config (script_server (Replied empty_page)) ''tok'' ''dev1''
          (fresh [Replied config_version_only])) = Inl (KeyError ''response'')"
    by blast
  from get_device_config_raises_or_returns_field[where srv = "script_server (Replied empty_page)"
      and st = "fresh [Replied config_ok]" and r = config_ok
      and kv = "[(''response'', PStr ''hostname sw1'')]" and v = "PStr ''hostname sw1''", OF h3] j3
  have c: "fst (get_device_config demo_config (script_server (Replied empty_page)) ''tok'' ''dev1''
          (fresh [Replied config_ok])) = Inr (PStr ''hostname sw1'')"
    by blast
  from a b c show ?thesis by blast
qed

section \<open>Properties of the agent\<close>

text \<open>
  Claim C8: when \<^verbatim>\<open>AI_ACCESS_TOKEN\<close> is not in the environment, the module raises
  \<open>EnvironmentError\<close> at its top level, whatever the rest of the program is: the
  rest, which would serve requests, is never run.
\<close>

theorem missing_api_key_is_fatal:
  assumes "environ ''AI_ACCESS_TOKEN'' = None"
  shows "ai_agent_module environ rest =
           Inl (EnvironmentError
             ''OpenAI API key is missing. Please check your .env file or environment variables.'')"
  using assms by (simp add: ai_agent_module_def OPENAI_API_KEY_def)


theorem missing_api_key_is_fatal_witness:
  "Map.empty ''AI_ACCESS_TOKEN'' = (None :: string option) \<and>
   ai_agent_module Map.empty (\<lambda>key. Inr key) =
     Inl (EnvironmentError
       ''OpenAI API key is missing. Please check your .env file or environment variables.'')"
  using missing_api_key_is_fatal[of Map.empty "\<lambda>key. Inr key"] by simp


text \<open>
  Claim C9, as the code has it. When reading the content of the assistant message
  raises, the exception is caught: \<^verbatim>\<open>final_response\<close> becomes the literal
  \<open>Error displaying response.\<close>, the error is printed, and the loop goes on with the
  events that remain, each of which assigns \<^verbatim>\<open>final_response\<close> again when it
  carries messages. So the placeholder is what the turn appends as the assistant's
  message when the failing event is the last one of the stream that carries messages,
  the events before it were processed without an uncaught exception, and the stream ends
  normally; the turn then returns normally.
\<close>

theorem extraction_failure_gives_placeholder:
  assumes fail: "extract_content m = Inl e"
  shows "process_events (Some (ms @ [m]) # events) final_response out =
           process_events events (PStr ''Error displaying response.'')
             (out @ [Print_thinking m, Print_error_processing e])
       \<and> (messages st = Some transcript \<and>
          graph (transcript @ [user_message user_input]) =
            (pre @ [Some (ms @ [m])] @ replicate n None, None) \<and>
          process_events pre PNone (stdout st) = (Inr r, out') \<longrightarrow>
            process_user_message graph user_input st =
              (Inr (),
               \<lparr>messages = Some (transcript @ [user_message user_input,
                                   assistant_message (PStr ''Error displaying response.'')]),
                stdout = out' @ [Print_thinking m, Print_error_processing e]\<rparr>))"
proof (intro conjI impI)
  show ev: "process_events (Some (ms @ [m]) # events) final_response out =
           process_events events (PStr ''Error displaying response.'')
             (out @ [Print_thinking m, Print_error_processing e])" for events final_response out
    using fail by simp
  assume a: "messages st = Some transcript \<and>
          graph (transcript @ [user_message user_input]) =
            (pre @ [Some (ms @ [m])] @ replicate n None, None) \<and>
          process_events pre PNone (stdout st) = (Inr r, out')"
  have "process_events (pre @ [Some (ms @ [m])] @ replicate n None) PNone (stdout st) =
          process_events (Some (ms @ [m]) # replicate n None) r out'"
    using a process_events_append[of pre PNone "stdout st" r out' "[Some (ms @ [m])] @ replicate n None"]
    by simp
  also have "\<dots> = process_events (replicate n None) (PStr ''Error displaying response.'')
                     (out' @ [Print_thinking m, Print_error_processing e])"
    by (rule ev)
  also have "\<dots> = (Inr (PStr ''Error displaying response.''),
                     out' @ [Print_thinking m, Print_error_processing e])"
    by (rule process_events_no_messages)
  finally have "process_events (pre @ [Some (ms @ [m])] @ replicate n None) PNone (stdout st) =
          (Inr (PStr ''Error displaying response.''), out' @ [Print_thinking m, Print_error_processing e])" .
  with a show "process_user_message graph user_input st =
              (Inr (),
               \<lparr>messages = Some (transcript @ [user_message user_input,
                                   assistant_message (PStr ''Error displaying response.'')]),
                stdout = out' @ [Print_thinking m, Print_error_processing e]\<rparr>)"
    by (simp add: process_user_message_def append_message_def)
qed

text \<open>
  A stream of an event without messages, the failing event, and one more event without
  messages: the turn appends the placeholder.
\<close>

theorem extraction_failure_gives_placeholder_witness:
  "extract_content failing_message = Inl (RuntimeError ''content unavailable'')
   \<and> process_user_message
         (\<lambda>transcript. ([None] @ [Some ([] @ [failing_message])] @ replicate 1 None, None))
         ''hello'' new_session =
       (Inr (),
        \<lparr>messages = Some ([] @ [user_message ''hello'',
                                 assistant_message (PStr ''Error displaying response.'')]),
         stdout = [] @ [Print_thinking failing_message,
                        Print_error_processing (RuntimeError ''content unavailable'')]\<rparr>)"
proof -
  have h: "extract_content failing_message = Inl (RuntimeError ''content unavailable'')"
    by (simp add: extract_content_def failing_message_def)
  have g: "messages new_session = Some [] \<and>
           (\<lambda>transcript. ([None] @ [Some ([] @ [failing_message])] @ replicate 1 None, None))
               ([] @ [user_message ''hello'']) =
             ([None] @ [Some ([] @ [failing_message])] @ replicate 1 None, None) \<and>
           process_events [None] PNone (stdout new_session) = (Inr PNone, [])"
    by (simp add: new_session_def)
  from extraction_failure_gives_placeholder[where st = new_session and transcript = "[]"
      and graph = "\<lambda>transcript. ([None] @ [Some ([] @ [failing_message])] @ replicate 1 None, None)"
      and user_input = "''hello''" and pre = "[None]" and ms = "[]" and n = 1 and r = PNone
      and out' = "[]", OF h, THEN conjunct2, rule_format, OF g] h
  show ?thesis by blast
qed

text \<open>
  The claim as written has the placeholder as the turn's final response after every
  such failure, and quotes it as \<open>error displaying response\<close>. When an event with
  content follows the failing one, that content is what the turn appends; and the
  placeholder of the code is another string than the one the claim quotes.
\<close>

theorem extraction_failure_overwritten_counterexample:
  "extract_content failing_message = Inl (RuntimeError ''content unavailable'')
   \<and> process_user_message
         (\<lambda>transcript. ([Some [failing_message], Some [Object_message (Inr (PStr ''fine''))]], None))
         ''hello'' new_session =
       (Inr (),
        \<lparr>messages = Some [user_message ''hello'', assistant_message (PStr ''fine'')],
         stdout = [Print_thinking failing_message,
                   Print_error_processing (RuntimeError ''content unavailable''),
                   Print_thinking (Object_message (Inr (PStr ''fine'')))]\<rparr>)
   \<and> assistant_message (PStr ''fine'') \<noteq> assistant_message (PStr ''Error displaying response.'')
   \<and> assistant_message (PStr ''fine'') \<noteq> assistant_message (PStr ''error displaying response'')
   \<and> PStr ''Error displaying response.'' \<noteq> PStr ''error displaying response''"
  by (simp add: process_user_message_def append_message_def extract_content_def
        failing_message_def new_session_def assistant_message_def)

text \<open>
  Claim C10: the transcript is a list that the program only appends to. Appending the
  messages of a list, one after the other, to a transcript gives the transcript followed
  by that list, so from the empty transcript of a new session it gives back exactly those
  messages in their order. Initialising the session keeps a transcript that exists. A
  turn keeps every message that was there, in place, and adds the user's message and at
  most one assistant message after them.
\<close>

theorem transcript_append_only:
  "foldl (\<lambda>transcript m. append_message m transcript) t0 ms = t0 @ ms
   \<and> messages (initialize_session_state st) = Some (case messages st of None \<Rightarrow> [] | Some t \<Rightarrow> t)
   \<and> (messages st = Some transcript \<longrightarrow>
        (messages (snd (process_user_message graph user_input st)) =
           Some (transcript @ [user_message user_input])
         \<or> (\<exists>c. messages (snd (process_user_message graph user_input st)) =
                  Some (transcript @ [user_message user_input, assistant_message c]))))"
proof (intro conjI impI)
  show "foldl (\<lambda>transcript m. append_message m transcript) t0 ms = t0 @ ms"
    by (induction ms arbitrary: t0) (simp_all add: append_message_def)
  show "messages (initialize_session_state st) = Some (case messages st of None \<Rightarrow> [] | Some t \<Rightarrow> t)"
    by (simp add: initialize_session_state_def split: option.split)
  assume "messages st = Some transcript"
  then show "messages (snd (process_user_message graph user_input st)) =
           Some (transcript @ [user_message user_input])
         \<or> (\<exists>c. messages (snd (process_user_message graph user_input st)) =
                  Some (transcript @ [user_message user_input, assistant_message c]))"
    by (auto simp: process_user_message_def append_message_def Let_def
             split: prod.splits sum.splits option.splits)
qed


theorem transcript_append_only_witness:
  "foldl (\<lambda>transcript m. append_message m transcript) []
     [user_message ''a'', assistant_message (PStr ''b''), user_message ''c''] =
     [user_message ''a'', assistant_message (PStr ''b''), user_message ''c'']
   \<and> messages \<lparr>messages = Some [user_message ''a'', assistant_message (PStr ''b'')], stdout = []\<rparr> =
       Some [user_message ''a'', assistant_message (PStr ''b'')]
   \<and> messages (snd (process_user_message (\<lambda>transcript. ([Some [Object_message (Inr (PStr ''fine''))]], None))
                        ''c'' \<lparr>messages = Some [user_message ''a'', assistant_message (PStr ''b'')], stdout = []\<rparr>)) =
       Some [user_message ''a'', assistant_message (PStr ''b''), user_message ''c'',
             assistant_message (PStr ''fine'')]"
proof -
  have h: "messages \<lparr>messages = Some [user_message ''a'', assistant_message (PStr ''b'')], stdout = []\<rparr> =
       Some [user_message ''a'', assistant_message (PStr ''b'')]"
    by simp
  have run: "messages (snd (process_user_message (\<lambda>transcript. ([Some [Object_message (Inr (PStr ''fine''))]], None))
                        ''c'' \<lparr>messages = Some [user_message ''a'', assistant_message (PStr ''b'')], stdout = []\<rparr>)) =
       Some [user_message ''a'', assistant_message (PStr ''b''), user_message ''c'',
             assistant_message (PStr ''fine'')]"
    by (simp add: process_user_message_def append_message_def extract_content_def)
  note all = transcript_append_only[where ?t0.0 = "[]"
      and ms = "[user_message ''a'', assistant_message (PStr ''b''), user_message ''c'']"
      and st = "\<lparr>messages = Some [user_message ''a'', assistant_message (PStr ''b'')], stdout = []\<rparr>"
      and transcript = "[user_message ''a'', assistant_message (PStr ''b'')]"
      and graph = "\<lambda>transcript. ([Some [Object_message (Inr (PStr ''fine''))]], None)"
      and user_input = "''c''"]
  from all[THEN conjunct1]
  have rt: "foldl (\<lambda>transcript m. append_message m transcript) []
     [user_message ''a'', assistant_message (PStr ''b''), user_message ''c''] =
     [user_message ''a'', assistant_message (PStr ''b''), user_message ''c'']"
    by simp
  from all[THEN conjunct2, THEN conjunct2, rule_format, OF h]
  have "messages (snd (process_user_message (\<lambda>transcript. ([Some [Object_message (Inr (PStr ''fine''))]], None))
                        ''c'' \<lparr>messages = Some [user_message ''a'', assistant_message (PStr ''b'')], stdout = []\<rparr>)) \<noteq>
          Some ([user_message ''a'', assistant_message (PStr ''b'')] @ [user_message ''c'']) \<Longrightarrow>
        \<exists>c. messages (snd (process_user_message (\<lambda>transcript. ([Some [Object_message (Inr (PStr ''fine''))]], None))
                        ''c'' \<lparr>messages = Some [user_message ''a'', assistant_message (PStr ''b'')], stdout = []\<rparr>)) =
          Some ([user_message ''a'', assistant_message (PStr ''b'')] @ [user_message ''c'', assistant_message c])"
    by blast
  with rt h run show ?thesis by simp
qed

end
